theory Spec2Isabelle
  imports Complex_Main "HOL-Library.Word"
begin

section \<open>Shared Python values\<close>

text \<open>
  A Python \<open>str\<close> is a sequence of Unicode code points, so it is modelled as a list of
  naturals (an Isabelle \<open>char\<close> is one byte and could not hold \<open>chr(65 + r)\<close> for a large
  row index). \<open>of_ascii\<close> embeds an ASCII literal.
\<close>

type_synonym pystr = "nat list"

definition of_ascii :: "string \<Rightarrow> pystr" where
  "of_ascii s = map of_char s"

text \<open>
  The exceptions the modelled code can raise. Only subclasses of \<open>Exception\<close> are
  modelled (they are what \<open>except Exception\<close> catches); \<open>Raised msg\<close> stands for any
  exception raised inside an external collaborator.
\<close>

datatype pyexn =
    KeyError pystr
  | ValueError
  | IndexError
  | ZeroDivisionError
  | AttributeError
  | Raised pystr




text \<open>\<open>sep.join(xs)\<close>.\<close>

fun join :: "pystr \<Rightarrow> pystr list \<Rightarrow> pystr" where
  "join sep [] = []"
| "join sep [x] = x"
| "join sep (x # y # zs) = x @ sep @ join sep (y # zs)"

section \<open>Arrays, images and masks\<close>

text \<open>
  A two-dimensional numpy array is a list of rows. A mask is a boolean array; after
  \<open>astype(np.uint8)\<close> it is an array of 8-bit words, on which \<open>-\<close> wraps around as
  numpy's \<open>uint8\<close> subtraction does.
\<close>

type_synonym u8 = "8 word"
type_synonym 'a array2 = "'a list list"

text \<open>
  An image is a \<open>uint8\<close> array that is either two-dimensional (\<open>Gray h w px\<close>, shape
  \<open>(h, w)\<close>) or three-dimensional (\<open>Multi h w c px\<close>, shape \<open>(h, w, c)\<close>); \<open>px\<close> holds
  the values in row-major order, the channels of one pixel next to each other.
\<close>

datatype image =
    Gray nat nat "u8 list"
  | Multi nat nat nat "u8 list"



fun chunks :: "nat \<Rightarrow> 'a list \<Rightarrow> 'a list list" where
  "chunks n xs = (if n = 0 \<or> xs = [] then [] else take n xs # chunks n (drop n xs))"

text \<open>
  The two OpenCV colour conversions and the numpy slice used by \<open>_preprocess_image\<close>:
  \<open>COLOR_GRAY2RGB\<close> repeats the grey value in three channels, \<open>COLOR_RGBA2RGB\<close> drops the
  fourth channel, and \<open>image[:, :, :3]\<close> keeps the first three channels of every pixel.
\<close>

definition gray2rgb :: "u8 list \<Rightarrow> u8 list" where
  "gray2rgb px = concat (map (\<lambda>g. [g, g, g]) px)"

definition first3 :: "nat \<Rightarrow> u8 list \<Rightarrow> u8 list" where
  "first3 c px = concat (map (take 3) (chunks c px))"

fun preprocess_image :: "image \<Rightarrow> image" where
  "preprocess_image (Gray h w px) = Multi h w 3 (gray2rgb px)"
| "preprocess_image (Multi h w c px) =
     (if c = 4 then Multi h w 3 (first3 4 px)
      else if c > 3 then Multi h w 3 (first3 c px)
      else Multi h w c px)"

section \<open>Diffusion zone\<close>

text \<open>
  \<open>cv2.dilate\<close> with the kernel \<open>np.ones((3, 3))\<close>: every output pixel is the maximum of
  the input over the 3 x 3 neighbourhood centred on it; neighbours outside the array do
  not contribute (OpenCV's default border for a dilation is the lowest value, 0 for
  \<open>uint8\<close>). \<open>iterations = n\<close> applies the step \<open>n\<close> times.
\<close>

definition kernel :: "(int \<times> int) list" where
  "kernel = [(dy, dx). dy \<leftarrow> [-1, 0, 1], dx \<leftarrow> [-1, 0, 1]]"

definition pixel_at :: "u8 array2 \<Rightarrow> int \<Rightarrow> int \<Rightarrow> u8" where
  "pixel_at a y x =
     (if 0 \<le> y \<and> y < int (length a) \<and> 0 \<le> x \<and> x < int (length (a ! nat y))
      then a ! nat y ! nat x else 0)"

definition dilate_once :: "u8 array2 \<Rightarrow> u8 array2" where
  "dilate_once a =
     map (\<lambda>y. map (\<lambda>x. fold max (map (\<lambda>(dy, dx). pixel_at a (int y + dy) (int x + dx)) kernel) 0)
                   [0..<length (a ! y)])
         [0..<length a]"

definition dilate :: "u8 array2 \<Rightarrow> nat \<Rightarrow> u8 array2" where
  "dilate a iterations = (dilate_once ^^ iterations) a"

definition astype_uint8 :: "bool array2 \<Rightarrow> u8 array2" where
  "astype_uint8 m = map (map (\<lambda>b. if b then 1 else 0)) m"

definition array_sub :: "u8 array2 \<Rightarrow> u8 array2 \<Rightarrow> u8 array2" where
  "array_sub a b = map2 (map2 (\<lambda>p q. p - q)) a b"

definition diffusion_iterations :: "int \<Rightarrow> int" where
  "diffusion_iterations expansion_pixels = max 1 (expansion_pixels div 3)"

text \<open>
  What an operation of the engine does besides returning: its calls of the engine's own
  \<open>_preprocess_image\<close>, its calls on the external segmentation model (the automatic mask
  generator and the predictor), and its log lines. Every public operation returns the
  list of these events, in order, next to its result.
\<close>

datatype engine_event =
    Preprocess image
  | Generate image
  | Set_image image
  | Warn_cell pystr pyexn

text \<open>
  \<open>find_diffusion_zone\<close> (sam_model.py, lines 212-224). The image argument is not read;
  no helper and no external model is called, so the event list is empty.
\<close>

definition find_diffusion_zone ::
  "image \<Rightarrow> bool array2 \<Rightarrow> int \<Rightarrow> engine_event list \<times> bool array2" where
  "find_diffusion_zone image0 colony_mask expansion_pixels =
     (let iterations = diffusion_iterations expansion_pixels;
          expanded_mask = dilate (astype_uint8 colony_mask) (nat iterations);
          diffusion_mask = array_sub expanded_mask (astype_uint8 colony_mask)
      in ([], map (map (\<lambda>v. v > 0)) diffusion_mask))"

text \<open>The pixels of a mask, as a set of (row, column) positions.\<close>

definition mask_pixels :: "bool array2 \<Rightarrow> (nat \<times> nat) set" where
  "mask_pixels m = {(y, x). y < length m \<and> x < length (m ! y) \<and> m ! y ! x}"

definition nonzero_pixels :: "u8 array2 \<Rightarrow> (nat \<times> nat) set" where
  "nonzero_pixels a = {(y, x). y < length a \<and> x < length (a ! y) \<and> a ! y ! x \<noteq> 0}"

definition shape2 :: "'a array2 \<Rightarrow> nat list" where
  "shape2 a = map length a"

text \<open>An array whose values are all 0 or 1, as a converted boolean mask is.\<close>

definition binary :: "u8 array2 \<Rightarrow> bool" where
  "binary a = (\<forall>y<length a. \<forall>x<length (a ! y). a ! y ! x \<le> 1)"

section \<open>The segmentation engine\<close>

text \<open>
  The external segmentation model, as the engine holds it after \<open>_load_model\<close>:
  \<open>mask_generator.generate\<close>, \<open>predictor.set_image\<close> and \<open>predictor.predict\<close>. Each may
  raise. \<open>predict\<close> works on the image that \<open>set_image\<close> stored in the predictor, so the
  model passes that image to it.
\<close>

record candidate =
  segmentation :: "bool array2"
  stability_score :: rat
  area :: int

type_synonym box = "int list"

record sam =
  generate :: "image \<Rightarrow> pyexn + candidate list"
  set_image :: "image \<Rightarrow> pyexn option"
  predict :: "image \<Rightarrow> rat list list option \<Rightarrow> int list option \<Rightarrow> box option
                \<Rightarrow> pyexn + (bool array2 list \<times> rat list)"

text \<open>\<open>segment_everything\<close> (lines 109-137): the loop with its two \<open>continue\<close> branches.\<close>

fun filter_loop ::
  "candidate list \<Rightarrow> int \<Rightarrow> int option \<Rightarrow> bool array2 list \<times> rat list
     \<Rightarrow> bool array2 list \<times> rat list" where
  "filter_loop [] min_area max_area acc = acc"
| "filter_loop (mask_data # rest) min_area max_area (masks, scores) =
     (if area mask_data < min_area then filter_loop rest min_area max_area (masks, scores)
      else if (case max_area of None \<Rightarrow> False | Some m \<Rightarrow> area mask_data > m)
        then filter_loop rest min_area max_area (masks, scores)
      else filter_loop rest min_area max_area
             (masks @ [segmentation mask_data], scores @ [stability_score mask_data]))"

definition segment_everything ::
  "sam \<Rightarrow> image \<Rightarrow> int \<Rightarrow> int option
     \<Rightarrow> engine_event list \<times> (pyexn + bool array2 list \<times> rat list)" where
  "segment_everything self image0 min_area max_area =
     (let image1 = preprocess_image image0;
          evs = [Preprocess image0, Generate image1]
      in case generate self image1 of
           Inl e \<Rightarrow> (evs, Inl e)
         | Inr masks_data \<Rightarrow> (evs, Inr (filter_loop masks_data min_area max_area ([], []))))"









text \<open>
  The area condition in the words of the specification: at least \<open>min_area\<close>, and at
  most \<open>max_area\<close> when that is set.
\<close>

definition within_area :: "int \<Rightarrow> int option \<Rightarrow> candidate \<Rightarrow> bool" where
  "within_area min_area max_area cand =
     (min_area \<le> area cand \<and> (case max_area of None \<Rightarrow> True | Some m \<Rightarrow> area cand \<le> m))"





section \<open>Colony records and the analyzer\<close>

text \<open>
  A colony record is a Python dict; each key the code reads is a field that is absent
  (\<open>None\<close>) or present, and any further key lives in the record's extension, which no
  operation touches. \<open>id\<close> is kept as the text an f-string shows for it. Numbers are
  rationals: the exact value of a finite float.
\<close>

record colony =
  id' :: "pystr option"
  img :: "image option"
  mask' :: "bool array2 option"
  features :: "(pystr \<rightharpoonup> rat) option"
  scores :: "(pystr \<rightharpoonup> rat) option"
  phenotype :: "(pystr \<rightharpoonup> pystr) option"
  quality_score :: "rat option"
  cross_boundary :: "bool option"
  overlapping_wells :: "pystr list option"
  advanced_masks :: "(pystr \<rightharpoonup> bool array2) option"

text \<open>
  The analyzer's collaborators (colony.py, lines 19-50): the feature extractors chosen
  at construction, the scoring system's two methods, and \<open>sam_model\<close>, present or
  \<open>None\<close>, as its bound method \<open>find_diffusion_zone(img, mask)\<close>. Each may raise.
\<close>

record analyzer =
  sam_model :: "(image \<Rightarrow> bool array2 \<Rightarrow> pyexn + bool array2) option"
  feature_extractors :: "(image \<Rightarrow> bool array2 \<Rightarrow> pyexn + (pystr \<rightharpoonup> rat)) list"
  calculate_scores :: "(pystr \<rightharpoonup> rat) \<Rightarrow> pyexn + (pystr \<rightharpoonup> rat)"
  classify_phenotype :: "(pystr \<rightharpoonup> rat) \<Rightarrow> pyexn + (pystr \<rightharpoonup> pystr)"

text \<open>The engine of sam_model.py as the analyzer's \<open>sam_model\<close> (default expansion 15).\<close>

definition engine_diffusion :: "image \<Rightarrow> bool array2 \<Rightarrow> pyexn + bool array2" where
  "engine_diffusion i m = Inr (snd (find_diffusion_zone i m 15))"

datatype log_event =
    Warn_no_colonies
  | Error_analyzing nat pyexn
  | Info_done nat
  | Warn_missing_data pystr
  | Warn_low_quality pystr
  | Error_advanced pyexn

text \<open>Lines 74-79: create the three mappings that are absent.\<close>

definition ensure_structure :: "'z colony_scheme \<Rightarrow> 'z colony_scheme" where
  "ensure_structure colony =
     (let c1 = (if features colony = None then colony\<lparr>features := Some Map.empty\<rparr> else colony);
          c2 = (if scores c1 = None then c1\<lparr>scores := Some Map.empty\<rparr> else c1)
      in if phenotype c2 = None then c2\<lparr>phenotype := Some Map.empty\<rparr> else c2)"

text \<open>
  Lines 87-89: the extractor loop. The record is mutated in place, so when an extractor
  raises, the record keeps what the earlier extractors merged into it.
\<close>

fun extract_loop ::
  "(image \<Rightarrow> bool array2 \<Rightarrow> pyexn + (pystr \<rightharpoonup> rat)) list \<Rightarrow> 'z colony_scheme
     \<Rightarrow> pyexn option \<times> 'z colony_scheme" where
  "extract_loop [] colony = (None, colony)"
| "extract_loop (extractor # rest) colony =
     (case img colony of
        None \<Rightarrow> (Some (KeyError (of_ascii ''img'')), colony)
      | Some i \<Rightarrow>
     (case mask' colony of
        None \<Rightarrow> (Some (KeyError (of_ascii ''mask'')), colony)
      | Some m \<Rightarrow>
     (case extractor i m of
        Inl e \<Rightarrow> (Some e, colony)
      | Inr fs \<Rightarrow>
     (case features colony of
        None \<Rightarrow> (Some (KeyError (of_ascii ''features'')), colony)
      | Some f \<Rightarrow> extract_loop rest (colony\<lparr>features := Some (f ++ fs)\<rparr>)))))"

text \<open>Lines 92-93 and 96-97.\<close>

definition score_step :: "analyzer \<Rightarrow> 'z colony_scheme \<Rightarrow> pyexn option \<times> 'z colony_scheme" where
  "score_step self colony =
     (case features colony of
        None \<Rightarrow> (Some (KeyError (of_ascii ''features'')), colony)
      | Some f \<Rightarrow>
     (case calculate_scores self f of
        Inl e \<Rightarrow> (Some e, colony)
      | Inr s \<Rightarrow>
     (case scores colony of
        None \<Rightarrow> (Some (KeyError (of_ascii ''scores'')), colony)
      | Some s0 \<Rightarrow> (None, colony\<lparr>scores := Some (s0 ++ s)\<rparr>))))"

definition classify_step :: "analyzer \<Rightarrow> 'z colony_scheme \<Rightarrow> pyexn option \<times> 'z colony_scheme" where
  "classify_step self colony =
     (case features colony of
        None \<Rightarrow> (Some (KeyError (of_ascii ''features'')), colony)
      | Some f \<Rightarrow>
     (case classify_phenotype self f of
        Inl e \<Rightarrow> (Some e, colony)
      | Inr p \<Rightarrow>
     (case phenotype colony of
        None \<Rightarrow> (Some (KeyError (of_ascii ''phenotype'')), colony)
      | Some p0 \<Rightarrow> (None, colony\<lparr>phenotype := Some (p0 ++ p)\<rparr>))))"

text \<open>
  \<open>_perform_advanced_analysis\<close> (lines 118-139): everything is inside one
  \<open>try\<close>, so a failure is logged and the record keeps what was stored before it.
  \<open>np.sum\<close> of a boolean mask counts its true pixels.
\<close>

definition count_true :: "bool array2 \<Rightarrow> nat" where
  "count_true m = sum_list (map (\<lambda>row. length (filter (\<lambda>b. b) row)) m)"

definition perform_advanced_analysis ::
  "analyzer \<Rightarrow> 'z colony_scheme \<Rightarrow> 'z colony_scheme \<times> log_event list" where
  "perform_advanced_analysis self colony =
     (case sam_model self of
        None \<Rightarrow> (colony, [Error_advanced AttributeError])
      | Some sam_find_diffusion_zone \<Rightarrow>
     (case img colony of
        None \<Rightarrow> (colony, [Error_advanced (KeyError (of_ascii ''img''))])
      | Some i \<Rightarrow>
     (case mask' colony of
        None \<Rightarrow> (colony, [Error_advanced (KeyError (of_ascii ''mask''))])
      | Some m \<Rightarrow>
     (case sam_find_diffusion_zone i m of
        Inl e \<Rightarrow> (colony, [Error_advanced e])
      | Inr diffusion_mask \<Rightarrow>
          (let am = (case advanced_masks colony of None \<Rightarrow> Map.empty | Some a \<Rightarrow> a);
               c1 = colony\<lparr>advanced_masks := Some (am(of_ascii ''diffusion'' \<mapsto> diffusion_mask))\<rparr>;
               diffusion_area = count_true diffusion_mask;
               colony_area = count_true m;
               diffusion_ratio =
                 (if colony_area > 0 then rat_of_nat diffusion_area / rat_of_nat colony_area else 0)
           in case features c1 of
                None \<Rightarrow> (c1, [Error_advanced (KeyError (of_ascii ''features''))])
              | Some f \<Rightarrow>
                  (c1\<lparr>features := Some (f(of_ascii ''metabolite_diffusion_ratio'' \<mapsto> diffusion_ratio))\<rparr>,
                   []))))))"

text \<open>
  Lines 104-106. The threshold is the double nearest to 0.3, whose exact value is
  \<open>5404319552844595 / 2 ^ 54\<close>; the default 0.5 is exact. The warning's f-string reads
  \<open>colony['id']\<close>, a \<open>KeyError\<close> when the record has no \<open>id\<close>.
\<close>

definition quality_threshold :: rat where
  "quality_threshold = 5404319552844595 / 18014398509481984"

definition quality_check :: "'z colony_scheme \<Rightarrow> pyexn option \<times> log_event list" where
  "quality_check colony =
     (let quality = (case quality_score colony of None \<Rightarrow> 1 / 2 | Some q \<Rightarrow> q)
      in if quality < quality_threshold
         then (case id' colony of
                 None \<Rightarrow> (Some (KeyError (of_ascii ''id'')), [])
               | Some n \<Rightarrow> (None, [Warn_low_quality n]))
         else (None, []))"

text \<open>Lines 109-115.\<close>

definition cross_boundary_step :: "'z colony_scheme \<Rightarrow> pyexn option \<times> 'z colony_scheme" where
  "cross_boundary_step colony =
     (if (case cross_boundary colony of None \<Rightarrow> False | Some b \<Rightarrow> b)
      then (case phenotype colony of
              None \<Rightarrow> (Some (KeyError (of_ascii ''phenotype'')), colony)
            | Some p \<Rightarrow>
                (let p1 = p(of_ascii ''special_case'' \<mapsto> of_ascii ''cross_boundary'');
                     affected_wells = (case overlapping_wells colony of None \<Rightarrow> [] | Some ws \<Rightarrow> ws);
                     p2 = p1(of_ascii ''affected_wells'' \<mapsto>
                            (if affected_wells \<noteq> [] then join (of_ascii '', '') affected_wells
                             else of_ascii ''none''))
                 in (None, colony\<lparr>phenotype := Some p2\<rparr>)))
      else (None, colony))"

text \<open>
  \<open>analyze_colony\<close> (lines 71-116). The dict is mutated in place and returned, so the
  model returns the exception raised, if any, with the state the record is left in and
  the log lines written: \<open>(None, c, lg)\<close> is a normal return of the record in state
  \<open>c\<close>, and \<open>(Some e, c, lg)\<close> is \<open>e\<close> raised with the record left in state \<open>c\<close>.
\<close>

definition analyze_colony ::
  "analyzer \<Rightarrow> 'z colony_scheme \<Rightarrow> bool \<Rightarrow> pyexn option \<times> 'z colony_scheme \<times> log_event list" where
  "analyze_colony self colony0 advanced =
     (let colony = ensure_structure colony0
      in if img colony = None \<or> mask' colony = None
         then (None, colony,
               [Warn_missing_data (case id' colony of None \<Rightarrow> of_ascii ''unknown'' | Some n \<Rightarrow> n)])
         else
     (case extract_loop (feature_extractors self) colony of
        (Some e, c1) \<Rightarrow> (Some e, c1, [])
      | (None, c1) \<Rightarrow>
     (case score_step self c1 of
        (Some e, c2) \<Rightarrow> (Some e, c2, [])
      | (None, c2) \<Rightarrow>
     (case classify_step self c2 of
        (Some e, c3) \<Rightarrow> (Some e, c3, [])
      | (None, c3) \<Rightarrow>
     (case (if advanced \<and> sam_model self \<noteq> None then perform_advanced_analysis self c3
            else (c3, [])) of
        (c4, lg_adv) \<Rightarrow>
     (case quality_check c4 of
        (Some e, lg_q) \<Rightarrow> (Some e, c4, lg_adv @ lg_q)
      | (None, lg_q) \<Rightarrow>
     (case cross_boundary_step c4 of
        (Some e, c5) \<Rightarrow> (Some e, c5, lg_adv @ lg_q)
      | (None, c5) \<Rightarrow> (None, c5, lg_adv @ lg_q))))))))"

text \<open>
  \<open>analyze\<close> (lines 52-69). The batch is a list of references to dict objects: the
  store maps each reference to the record's current state. \<open>analyze_colony\<close> returns the
  object it was given, so in both branches of the \<open>try\<close> the reference appended is the
  one read from the input, and the store holds what \<open>analyze_colony\<close> left in it. The
  result is the output list, the final store and the log.
\<close>

type_synonym ref = nat

fun analyze_loop ::
  "analyzer \<Rightarrow> bool \<Rightarrow> (nat \<times> ref) list
     \<Rightarrow> (ref \<Rightarrow> 'z colony_scheme) \<times> ref list \<times> log_event list
     \<Rightarrow> (ref \<Rightarrow> 'z colony_scheme) \<times> ref list \<times> log_event list" where
  "analyze_loop self advanced [] state = state"
| "analyze_loop self advanced ((i, colony) # rest) (store, analyzed_colonies, lg) =
     (case analyze_colony self (store colony) advanced of
        (None, c, lg') \<Rightarrow>
          analyze_loop self advanced rest
            (store(colony := c), analyzed_colonies @ [colony], lg @ lg')
      | (Some e, c, lg') \<Rightarrow>
          analyze_loop self advanced rest
            (store(colony := c), analyzed_colonies @ [colony],
             lg @ lg' @ [Error_analyzing i e]))"

definition analyze ::
  "analyzer \<Rightarrow> ref list \<Rightarrow> bool \<Rightarrow> (ref \<Rightarrow> 'z colony_scheme)
     \<Rightarrow> ref list \<times> (ref \<Rightarrow> 'z colony_scheme) \<times> log_event list" where
  "analyze self colonies advanced store =
     (if colonies = [] then ([], store, [Warn_no_colonies])
      else case analyze_loop self advanced (enumerate 0 colonies) (store, [], []) of
             (store', analyzed_colonies, lg) \<Rightarrow>
               (analyzed_colonies, store', lg @ [Info_done (length analyzed_colonies)]))"

section \<open>Example inputs\<close>

text \<open>Concrete inputs on which the theorems below are instantiated.\<close>

definition ex_gray :: image where
  "ex_gray = Gray 1 2 [7, 9]"

definition ex_mask :: "bool array2" where
  "ex_mask = [[True, False]]"

definition ex_candidates :: "candidate list" where
  "ex_candidates =
     [\<lparr>segmentation = [[True]], stability_score = 9 / 10, area = 24\<rparr>,
      \<lparr>segmentation = [[False]], stability_score = 8 / 10, area = 25\<rparr>,
      \<lparr>segmentation = [[True, True]], stability_score = 7 / 10, area = 50\<rparr>,
      \<lparr>segmentation = [[False, True]], stability_score = 6 / 10, area = 51\<rparr>]"

definition ex_sam :: sam where
  "ex_sam = \<lparr>generate = (\<lambda>i. Inr ex_candidates), set_image = (\<lambda>i. None),
             predict = (\<lambda>i pc pl b. Inr ([[[True, False]], [[False, True]]], [1 / 2, 3 / 4]))\<rparr>"



definition ex_extract_basic :: "image \<Rightarrow> bool array2 \<Rightarrow> pyexn + (pystr \<rightharpoonup> rat)" where
  "ex_extract_basic i m = Inr [of_ascii ''area'' \<mapsto> rat_of_nat (count_true m)]"

definition ex_extract_picky :: "image \<Rightarrow> bool array2 \<Rightarrow> pyexn + (pystr \<rightharpoonup> rat)" where
  "ex_extract_picky i m =
     (if count_true m = 0 then Inl (Raised (of_ascii ''empty mask''))
      else Inr [of_ascii ''height'' \<mapsto> rat_of_nat (length m)])"

definition ex_analyzer :: analyzer where
  "ex_analyzer =
     \<lparr>sam_model = Some engine_diffusion,
      feature_extractors = [ex_extract_basic, ex_extract_basic],
      calculate_scores = (\<lambda>f. Inr [of_ascii ''overall'' \<mapsto> 1]),
      classify_phenotype = (\<lambda>f. Inr [of_ascii ''shape'' \<mapsto> of_ascii ''round''])\<rparr>"

definition ex_analyzer_picky :: analyzer where
  "ex_analyzer_picky = ex_analyzer\<lparr>feature_extractors := [ex_extract_basic, ex_extract_picky]\<rparr>"

definition ex_colony :: colony where
  "ex_colony =
     \<lparr>id' = Some (of_ascii ''c1''), img = Some ex_gray, mask' = Some ex_mask,
      features = None, scores = None, phenotype = None, quality_score = None,
      cross_boundary = Some True,
      overlapping_wells = Some [of_ascii ''A1'', of_ascii ''A2''],
      advanced_masks = None\<rparr>"

definition ex_colony_no_id :: colony where
  "ex_colony_no_id = ex_colony\<lparr>id' := None, quality_score := Some (1 / 10)\<rparr>"

definition ex_colony_no_mask :: colony where
  "ex_colony_no_mask = ex_colony\<lparr>mask' := None\<rparr>"

definition ex_colony_bad :: colony where
  "ex_colony_bad = ex_colony\<lparr>mask' := Some [[False, False]]\<rparr>"

definition ex_store :: "ref \<Rightarrow> colony" where
  "ex_store a = (if a = 0 then ex_colony_bad else ex_colony)"

text \<open>
  Two relations used to state what \<open>analyze_colony\<close> leaves of a record: the three
  mappings exist, and every field other than \<open>features\<close>, \<open>scores\<close>, \<open>phenotype\<close> and
  \<open>advanced_masks\<close> is what it was.
\<close>

definition has_structure :: "'z colony_scheme \<Rightarrow> bool" where
  "has_structure c = (features c \<noteq> None \<and> scores c \<noteq> None \<and> phenotype c \<noteq> None)"

definition same_inputs :: "'z colony_scheme \<Rightarrow> 'z colony_scheme \<Rightarrow> bool" where
  "same_inputs c c' =
     (id' c' = id' c \<and> img c' = img c \<and> mask' c' = mask' c \<and>
      quality_score c' = quality_score c \<and> cross_boundary c' = cross_boundary c \<and>
      overlapping_wells c' = overlapping_wells c \<and> colony.more c' = colony.more c)"

section \<open>Dilation and the diffusion zone\<close>

lemma fold_max_ge_init: "(b::u8) \<le> fold max xs b"
  by (induction xs arbitrary: b) (auto intro: order_trans [OF max.cobounded2])

lemma fold_max_ge_elem: "(v::u8) \<in> set xs \<Longrightarrow> v \<le> fold max xs b"
proof (induction xs arbitrary: b)
  case Nil then show ?case by simp
next
  case (Cons x xs)
  show ?case
  proof (cases "v = x")
    case True
    have "x \<le> max x b" by simp
    also have "\<dots> \<le> fold max xs (max x b)" by (rule fold_max_ge_init)
    finally show ?thesis using True by simp
  next
    case False
    with Cons show ?thesis by simp
  qed
qed

lemma fold_max_le:
  "(\<And>v. v \<in> set xs \<Longrightarrow> v \<le> (k::u8)) \<Longrightarrow> b \<le> k \<Longrightarrow> fold max xs b \<le> k"
  by (induction xs arbitrary: b) auto

lemma length_dilate_once: "length (dilate_once a) = length a"
  by (simp add: dilate_once_def)

lemma row_length_dilate_once: "y < length a \<Longrightarrow> length (dilate_once a ! y) = length (a ! y)"
  by (simp add: dilate_once_def)

lemma dilate_once_nth:
  "y < length a \<Longrightarrow> x < length (a ! y) \<Longrightarrow>
   dilate_once a ! y ! x =
     fold max (map (\<lambda>(dy, dx). pixel_at a (int y + dy) (int x + dx)) kernel) 0"
  by (simp add: dilate_once_def)

lemma centre_in_kernel: "(0, 0) \<in> set kernel"
  by (simp add: kernel_def)

lemma dilate_once_extensive:
  assumes "y < length a" "x < length (a ! y)"
  shows "a ! y ! x \<le> dilate_once a ! y ! x"
proof -
  have "pixel_at a (int y + 0) (int x + 0) = a ! y ! x"
    using assms by (simp add: pixel_at_def)
  then have "a ! y ! x \<in> set (map (\<lambda>(dy, dx). pixel_at a (int y + dy) (int x + dx)) kernel)"
    using centre_in_kernel by force
  then show ?thesis
    using assms by (simp only: dilate_once_nth fold_max_ge_elem)
qed

lemma pixel_at_le: "binary a \<Longrightarrow> pixel_at a y x \<le> 1"
  by (auto simp: pixel_at_def binary_def)

lemma dilate_once_binary: "binary a \<Longrightarrow> binary (dilate_once a)"
  unfolding binary_def [of "dilate_once a"]
  by (auto simp: length_dilate_once row_length_dilate_once dilate_once_nth
           intro!: fold_max_le pixel_at_le)

lemma length_dilate: "length (dilate a n) = length a"
  by (induction n) (simp_all add: dilate_def length_dilate_once)

lemma row_length_dilate: "y < length a \<Longrightarrow> length (dilate a n ! y) = length (a ! y)"
proof (induction n)
  case 0 then show ?case by (simp add: dilate_def)
next
  case (Suc n)
  have "y < length (dilate a n)" using Suc.prems by (simp add: length_dilate)
  then have "length (dilate_once (dilate a n) ! y) = length (dilate a n ! y)"
    by (rule row_length_dilate_once)
  with Suc show ?case by (simp add: dilate_def)
qed

lemma dilate_binary: "binary a \<Longrightarrow> binary (dilate a n)"
  by (induction n) (simp_all add: dilate_def dilate_once_binary)

lemma dilate_extensive:
  assumes "y < length a" "x < length (a ! y)"
  shows "a ! y ! x \<le> dilate a n ! y ! x"
proof (induction n)
  case 0 show ?case by (simp add: dilate_def)
next
  case (Suc n)
  have y: "y < length (dilate a n)" using assms by (simp add: length_dilate)
  have x: "x < length (dilate a n ! y)" using assms by (simp add: row_length_dilate)
  have "dilate a n ! y ! x \<le> dilate_once (dilate a n) ! y ! x"
    using y x by (rule dilate_once_extensive)
  with Suc show ?case by (simp add: dilate_def)
qed

lemma astype_binary: "binary (astype_uint8 m)"
  by (simp add: binary_def astype_uint8_def)

lemma u8_le_one: "(w::u8) \<le> 1 \<Longrightarrow> w = 0 \<or> w = 1"
  by (metis word_le_sub1 word_less_1 order_le_less diff_self zero_neq_one)

lemma array_sub_nth:
  "y < length a \<Longrightarrow> length b = length a \<Longrightarrow> x < length (a ! y) \<Longrightarrow> length (b ! y) = length (a ! y)
   \<Longrightarrow> array_sub a b ! y ! x = a ! y ! x - b ! y ! x"
  by (simp add: array_sub_def)

lemma length_astype: "length (astype_uint8 m) = length m"
  by (simp add: astype_uint8_def)

lemma row_length_astype: "y < length m \<Longrightarrow> length (astype_uint8 m ! y) = length (m ! y)"
  by (simp add: astype_uint8_def)

lemma astype_nth:
  "y < length m \<Longrightarrow> x < length (m ! y) \<Longrightarrow> astype_uint8 m ! y ! x = (if m ! y ! x then 1 else 0)"
  by (simp add: astype_uint8_def)

lemma length_fdz: "length (snd (find_diffusion_zone i m e)) = length m"
  by (simp add: find_diffusion_zone_def Let_def array_sub_def length_dilate length_astype)

lemma row_length_fdz:
  "y < length m \<Longrightarrow> length (snd (find_diffusion_zone i m e) ! y) = length (m ! y)"
  by (simp add: find_diffusion_zone_def Let_def array_sub_def length_dilate length_astype
        row_length_dilate row_length_astype)

lemma fdz_nth:
  assumes y: "y < length m" and x: "x < length (m ! y)"
  shows "snd (find_diffusion_zone i m e) ! y ! x =
           (dilate (astype_uint8 m) (nat (diffusion_iterations e)) ! y ! x \<noteq> 0 \<and> \<not> m ! y ! x)"
proof -
  let ?A = "astype_uint8 m"
  let ?D = "dilate ?A (nat (diffusion_iterations e))"
  have yA: "y < length ?A" and xA: "x < length (?A ! y)"
    using y x by (simp_all add: length_astype row_length_astype)
  have ext: "?A ! y ! x \<le> ?D ! y ! x"
    using yA xA by (rule dilate_extensive)
  have yD: "y < length ?D" and xD: "x < length (?D ! y)"
    using yA xA by (simp_all add: length_dilate row_length_dilate)
  have "binary ?D" by (rule dilate_binary [OF astype_binary])
  then have "?D ! y ! x \<le> 1" using yD xD by (simp add: binary_def)
  then have d01: "?D ! y ! x = 0 \<or> ?D ! y ! x = 1" by (rule u8_le_one)
  have a: "?A ! y ! x = (if m ! y ! x then 1 else 0)" using y x by (rule astype_nth)
  have sub: "array_sub ?D ?A ! y ! x = ?D ! y ! x - ?A ! y ! x"
    using yD xD yA xA by (simp add: array_sub_nth length_dilate row_length_dilate)
  have "snd (find_diffusion_zone i m e) ! y ! x = (0 < array_sub ?D ?A ! y ! x)"
    using yD xD yA xA
    by (simp add: find_diffusion_zone_def Let_def array_sub_def length_dilate row_length_dilate)
  also have "\<dots> = (?D ! y ! x \<noteq> 0 \<and> \<not> m ! y ! x)"
    using d01 ext a by (auto simp: sub word_greater_zero_iff)
  finally show ?thesis .
qed

text \<open>
  C8. For every boolean colony mask and every \<open>expansion_pixels\<close>, the mask returned by
  \<open>find_diffusion_zone\<close> has the shape of the input, its pixels are exactly the pixels of
  the dilated mask that are not pixels of the input mask (the set difference), and so
  no pixel is both in the returned diffusion mask and in the input mask.
\<close>

theorem find_diffusion_zone_set_difference:
  "shape2 (snd (find_diffusion_zone i m e)) = shape2 m \<and>
   mask_pixels (snd (find_diffusion_zone i m e)) =
     nonzero_pixels (dilate (astype_uint8 m) (nat (diffusion_iterations e))) - mask_pixels m \<and>
   mask_pixels (snd (find_diffusion_zone i m e)) \<inter> mask_pixels m = {}"
proof -
  have shape: "shape2 (snd (find_diffusion_zone i m e)) = shape2 m"
    unfolding shape2_def by (rule nth_equalityI) (simp_all add: length_fdz row_length_fdz)
  have diff: "mask_pixels (snd (find_diffusion_zone i m e)) =
     nonzero_pixels (dilate (astype_uint8 m) (nat (diffusion_iterations e))) - mask_pixels m"
    unfolding mask_pixels_def nonzero_pixels_def
    by (auto simp: length_fdz row_length_fdz fdz_nth length_dilate row_length_dilate
          length_astype row_length_astype)
  from shape diff show ?thesis by blast
qed




section \<open>The segmentation operations\<close>

lemma filter_loop_eq:
  "filter_loop cs mn mx (ms, ss) =
     (ms @ map segmentation (filter (within_area mn mx) cs),
      ss @ map stability_score (filter (within_area mn mx) cs))"
  by (induction cs arbitrary: ms ss) (auto simp: within_area_def split: option.splits)

text \<open>
  C3. Whenever the generator produces a candidate list, \<open>segment_everything\<close> returns
  exactly the candidates whose area is at least \<open>min_area\<close> and, when \<open>max_area\<close> is set,
  at most \<open>max_area\<close>: the masks and the scores of those candidates, in the generator's
  order. An empty candidate list gives two empty lists, not an error.
\<close>

theorem segment_everything_area_filter:
  assumes "generate self (preprocess_image image0) = Inr cands"
  shows "snd (segment_everything self image0 min_area max_area) =
           Inr (map segmentation (filter (within_area min_area max_area) cands),
                map stability_score (filter (within_area min_area max_area) cands))
         \<and> (\<forall>cand \<in> set cands.
               cand \<in> set (filter (within_area min_area max_area) cands) \<longleftrightarrow>
               (min_area \<le> area cand \<and> (max_area = None \<or> area cand \<le> the max_area)))
         \<and> (cands = [] \<longrightarrow> snd (segment_everything self image0 min_area max_area) = Inr ([], []))"
  using assms
  by (auto simp: segment_everything_def Let_def filter_loop_eq within_area_def split: option.splits)

theorem segment_everything_area_filter_witness:
  "generate ex_sam (preprocess_image ex_gray) = Inr ex_candidates \<and>
   snd (segment_everything ex_sam ex_gray 25 (Some 50)) =
     Inr ([[[False]], [[True, True]]], [8 / 10, 7 / 10]) \<and>
   snd (segment_everything ex_sam ex_gray 25 None) =
     Inr ([[[False]], [[True, True]], [[False, True]]], [8 / 10, 7 / 10, 6 / 10])"
proof -
  have g: "generate ex_sam (preprocess_image ex_gray) = Inr ex_candidates"
    by (simp add: ex_sam_def)
  show ?thesis
    using g segment_everything_area_filter [OF g, of 25 "Some 50"]
          segment_everything_area_filter [OF g, of 25 None]
    by (simp add: ex_candidates_def within_area_def)
qed

































section \<open>The colony analyzer\<close>

lemma same_inputs_refl: "same_inputs c c"
  by (simp add: same_inputs_def)

lemma same_inputs_trans: "same_inputs a b \<Longrightarrow> same_inputs b c \<Longrightarrow> same_inputs a c"
  by (simp add: same_inputs_def)

lemma ensure_structure_same: "same_inputs c (ensure_structure c)"
  by (simp add: same_inputs_def ensure_structure_def Let_def)

lemma extract_loop_same: "same_inputs c (snd (extract_loop exs c))"
proof (induction exs arbitrary: c)
  case Nil show ?case by (simp add: same_inputs_refl)
next
  case (Cons ex exs)
  show ?case
  proof (cases "img c")
    case None then show ?thesis by (simp add: same_inputs_refl)
  next
    case (Some i)
    show ?thesis
    proof (cases "mask' c")
      case None then show ?thesis using Some by (simp add: same_inputs_refl)
    next
      case m: (Some m)
      show ?thesis
      proof (cases "ex i m")
        case (Inl e) then show ?thesis using Some m by (simp add: same_inputs_refl)
      next
        case (Inr fs)
        show ?thesis
        proof (cases "features c")
          case None then show ?thesis using Some m Inr by (simp add: same_inputs_refl)
        next
          case f: (Some f)
          have "same_inputs c (c\<lparr>features := Some (f ++ fs)\<rparr>)" by (simp add: same_inputs_def)
          then show ?thesis
            using Some m Inr f Cons.IH [of "c\<lparr>features := Some (f ++ fs)\<rparr>"]
            by (auto intro: same_inputs_trans)
        qed
      qed
    qed
  qed
qed

lemma score_step_same: "same_inputs c (snd (score_step self c))"
  by (simp add: score_step_def same_inputs_def split: option.splits sum.splits)

lemma classify_step_same: "same_inputs c (snd (classify_step self c))"
  by (simp add: classify_step_def same_inputs_def split: option.splits sum.splits)

lemma perform_advanced_analysis_same: "same_inputs c (fst (perform_advanced_analysis self c))"
  by (simp add: perform_advanced_analysis_def same_inputs_def Let_def split: option.splits sum.splits)

lemma cross_boundary_step_same: "same_inputs c (snd (cross_boundary_step c))"
  by (simp add: cross_boundary_step_def same_inputs_def Let_def split: option.splits)

lemma ensure_structure_has: "has_structure (ensure_structure c)"
  by (simp add: has_structure_def ensure_structure_def Let_def)

lemma extract_loop_has: "has_structure c \<Longrightarrow> has_structure (snd (extract_loop exs c))"
proof (induction exs arbitrary: c)
  case Nil then show ?case by simp
next
  case (Cons ex exs)
  have upd: "\<And>g. has_structure (c\<lparr>features := Some g\<rparr>)"
    using Cons.prems by (simp add: has_structure_def)
  show ?case
    using Cons.prems Cons.IH [OF upd]
    by (auto split: option.splits sum.splits)
qed

lemma score_step_has: "has_structure c \<Longrightarrow> has_structure (snd (score_step self c))"
  by (auto simp: score_step_def has_structure_def split: option.splits sum.splits)

lemma classify_step_has: "has_structure c \<Longrightarrow> has_structure (snd (classify_step self c))"
  by (auto simp: classify_step_def has_structure_def split: option.splits sum.splits)

lemma perform_advanced_analysis_has:
  "has_structure c \<Longrightarrow> has_structure (fst (perform_advanced_analysis self c))"
  by (auto simp: perform_advanced_analysis_def has_structure_def Let_def
           split: option.splits sum.splits)

lemma cross_boundary_step_has: "has_structure c \<Longrightarrow> has_structure (snd (cross_boundary_step c))"
  by (auto simp: cross_boundary_step_def has_structure_def Let_def split: option.splits)

lemma analyze_colony_outcome:
  assumes run: "analyze_colony self c adv = (x, c', lg)"
  shows "same_inputs c c' \<and> has_structure c' \<and>
         (x = None \<and> img c \<noteq> None \<and> mask' c \<noteq> None \<longrightarrow>
            (\<exists>c4. same_inputs c c4 \<and> cross_boundary_step c4 = (None, c')))"
proof -
  let ?c0 = "ensure_structure c"
  have s0: "same_inputs c ?c0" by (rule ensure_structure_same)
  have h0: "has_structure ?c0" by (rule ensure_structure_has)
  have im: "img ?c0 = img c" "mask' ?c0 = mask' c" using s0 by (simp_all add: same_inputs_def)
  show ?thesis
  proof (cases "img ?c0 = None \<or> mask' ?c0 = None")
    case True
    then have "c' = ?c0" using run by (simp add: analyze_colony_def Let_def)
    then show ?thesis using s0 h0 True im by auto
  next
    case present: False
    obtain x1 c1 where e1: "extract_loop (feature_extractors self) ?c0 = (x1, c1)"
      by (cases "extract_loop (feature_extractors self) ?c0") auto
    have s1: "same_inputs c c1"
      using extract_loop_same [of ?c0 "feature_extractors self"] e1 s0
      by (auto intro: same_inputs_trans)
    have h1: "has_structure c1"
      using extract_loop_has [OF h0, of "feature_extractors self"] e1 by simp
    show ?thesis
    proof (cases x1)
      case (Some e)
      then have "c' = c1 \<and> x = Some e" using run present e1 by (simp add: analyze_colony_def Let_def)
      then show ?thesis using s1 h1 by simp
    next
      case n1: None
      obtain x2 c2 where e2: "score_step self c1 = (x2, c2)" by (cases "score_step self c1") auto
      have s2: "same_inputs c c2"
        using score_step_same [of c1 self] e2 s1 by (auto intro: same_inputs_trans)
      have h2: "has_structure c2" using score_step_has [OF h1, of self] e2 by simp
      show ?thesis
      proof (cases x2)
        case (Some e)
        then have "c' = c2 \<and> x = Some e"
          using run present e1 n1 e2 by (simp add: analyze_colony_def Let_def)
        then show ?thesis using s2 h2 by simp
      next
        case n2: None
        obtain x3 c3 where e3: "classify_step self c2 = (x3, c3)"
          by (cases "classify_step self c2") auto
        have s3: "same_inputs c c3"
          using classify_step_same [of c2 self] e3 s2 by (auto intro: same_inputs_trans)
        have h3: "has_structure c3" using classify_step_has [OF h2, of self] e3 by simp
        show ?thesis
        proof (cases x3)
          case (Some e)
          then have "c' = c3 \<and> x = Some e"
            using run present e1 n1 e2 n2 e3 by (simp add: analyze_colony_def Let_def)
          then show ?thesis using s3 h3 by simp
        next
          case n3: None
          obtain c4 lg_adv where e4:
            "(if adv \<and> sam_model self \<noteq> None then perform_advanced_analysis self c3 else (c3, []))
               = (c4, lg_adv)"
            by (cases "if adv \<and> sam_model self \<noteq> None then perform_advanced_analysis self c3
                       else (c3, [])") auto
          have "same_inputs c3 c4"
            using perform_advanced_analysis_same [of c3 self] e4
            by (auto simp: same_inputs_refl split: if_splits)
          with s3 have s4: "same_inputs c c4" by (rule same_inputs_trans)
          have h4: "has_structure c4"
            using perform_advanced_analysis_has [OF h3, of self] h3 e4 by (auto split: if_splits)
          obtain x5 lg_q where e5: "quality_check c4 = (x5, lg_q)"
            by (cases "quality_check c4") auto
          show ?thesis
          proof (cases x5)
            case (Some e)
            then have "c' = c4 \<and> x = Some e"
              using run present e1 n1 e2 n2 e3 n3 e4 e5 by (simp add: analyze_colony_def Let_def)
            then show ?thesis using s4 h4 by simp
          next
            case n5: None
            obtain x6 c6 where e6: "cross_boundary_step c4 = (x6, c6)"
              by (cases "cross_boundary_step c4") auto
            have s6: "same_inputs c c6"
              using cross_boundary_step_same [of c4] e6 s4 by (auto intro: same_inputs_trans)
            have h6: "has_structure c6" using cross_boundary_step_has [OF h4] e6 by simp
            have "c' = c6 \<and> x = x6"
              using run present e1 n1 e2 n2 e3 n3 e4 e5 n5 e6
              by (cases x6) (simp_all add: analyze_colony_def Let_def)
            then show ?thesis using s6 h6 s4 e6 by auto
          qed
        qed
      qed
    qed
  qed
qed

lemma keys_differ: "of_ascii ''special_case'' \<noteq> of_ascii ''affected_wells''"
  by (simp add: of_ascii_def)

text \<open>
  C5. For every record with \<open>img\<close> and \<open>mask\<close> present on which \<open>analyze_colony\<close>
  returns (its pipeline reaches the final step): if \<open>cross_boundary\<close> is true, the
  returned record's phenotype has \<open>special_case = "cross_boundary"\<close>, and
  \<open>affected_wells\<close> is the wells of \<open>overlapping_wells\<close> joined by \<open>", "\<close> when that list
  is non-empty, and \<open>"none"\<close> when it is empty or absent.
\<close>

theorem analyze_colony_cross_boundary:
  assumes "img c = Some i" "mask' c = Some m"
    and run: "analyze_colony self c adv = (None, c', lg)"
    and cb: "cross_boundary c = Some True"
  shows "\<exists>p. phenotype c' = Some p \<and>
           p (of_ascii ''special_case'') = Some (of_ascii ''cross_boundary'') \<and>
           p (of_ascii ''affected_wells'') =
             Some (case overlapping_wells c of
                     None \<Rightarrow> of_ascii ''none''
                   | Some ws \<Rightarrow> if ws = [] then of_ascii ''none'' else join (of_ascii '', '') ws)"
proof -
  obtain c4 where s4: "same_inputs c c4" and step: "cross_boundary_step c4 = (None, c')"
    using analyze_colony_outcome [OF run] assms(1,2) by auto
  have cb4: "cross_boundary c4 = Some True" and ow: "overlapping_wells c4 = overlapping_wells c"
    using s4 cb by (simp_all add: same_inputs_def)
  show ?thesis
    using step cb4 ow keys_differ
    by (auto simp: cross_boundary_step_def Let_def split: option.splits if_splits)
qed

lemma ex_run: "fst (analyze_colony ex_analyzer ex_colony False) = None"
  by (simp add: analyze_colony_def ex_analyzer_def ex_colony_def ensure_structure_def Let_def
        ex_extract_basic_def score_step_def classify_step_def quality_check_def
        quality_threshold_def cross_boundary_step_def)

lemma ex_run_empty:
  "fst (analyze_colony ex_analyzer (ex_colony\<lparr>overlapping_wells := Some []\<rparr>) False) = None"
  by (simp add: analyze_colony_def ex_analyzer_def ex_colony_def ensure_structure_def Let_def
        ex_extract_basic_def score_step_def classify_step_def quality_check_def
        quality_threshold_def cross_boundary_step_def)

lemma ex_join: "join (of_ascii '', '') [of_ascii ''A1'', of_ascii ''A2''] = of_ascii ''A1, A2''"
  by (simp add: of_ascii_def)

theorem analyze_colony_cross_boundary_witness:
  "img ex_colony = Some ex_gray \<and> mask' ex_colony = Some ex_mask \<and>
   cross_boundary ex_colony = Some True \<and>
   fst (analyze_colony ex_analyzer ex_colony False) = None \<and>
   (\<exists>p. phenotype (fst (snd (analyze_colony ex_analyzer ex_colony False))) = Some p \<and>
        p (of_ascii ''special_case'') = Some (of_ascii ''cross_boundary'') \<and>
        p (of_ascii ''affected_wells'') = Some (of_ascii ''A1, A2'')) \<and>
   (\<exists>p. phenotype (fst (snd (analyze_colony ex_analyzer
                                  (ex_colony\<lparr>overlapping_wells := Some []\<rparr>) False))) = Some p \<and>
        p (of_ascii ''affected_wells'') = Some (of_ascii ''none''))"
proof -
  have i: "img ex_colony = Some ex_gray" and m: "mask' ex_colony = Some ex_mask"
    and cb: "cross_boundary ex_colony = Some True"
    and ow: "overlapping_wells ex_colony = Some [of_ascii ''A1'', of_ascii ''A2'']"
    by (simp_all add: ex_colony_def)
  have run: "analyze_colony ex_analyzer ex_colony False
               = (None, fst (snd (analyze_colony ex_analyzer ex_colony False)),
                  snd (snd (analyze_colony ex_analyzer ex_colony False)))"
    using ex_run by (metis prod.collapse)
  let ?e = "ex_colony\<lparr>overlapping_wells := Some []\<rparr>"
  have run': "analyze_colony ex_analyzer ?e False
               = (None, fst (snd (analyze_colony ex_analyzer ?e False)),
                  snd (snd (analyze_colony ex_analyzer ?e False)))"
    using ex_run_empty by (metis prod.collapse)
  have i': "img ?e = Some ex_gray" and m': "mask' ?e = Some ex_mask"
    and cb': "cross_boundary ?e = Some True"
    by (simp_all add: ex_colony_def)
  show ?thesis
    using analyze_colony_cross_boundary [OF i m run cb]
          analyze_colony_cross_boundary [OF i' m' run' cb']
          i m cb ow ex_run ex_join
    by auto
qed

text \<open>
  C6. For every record in which \<open>img\<close> or \<open>mask\<close> is absent and \<open>features\<close>,
  \<open>scores\<close>, \<open>phenotype\<close> are absent, \<open>analyze_colony\<close> returns normally: the record
  with the three mappings present and empty and every other field unchanged, and one
  warning logged that names the record.
\<close>

theorem analyze_colony_missing_data:
  assumes "img c = None \<or> mask' c = None"
    and "features c = None" "scores c = None" "phenotype c = None"
  shows "analyze_colony self c advanced =
           (None,
            c\<lparr>features := Some Map.empty, scores := Some Map.empty, phenotype := Some Map.empty\<rparr>,
            [Warn_missing_data (case id' c of None \<Rightarrow> of_ascii ''unknown'' | Some n \<Rightarrow> n)])"
  using assms by (auto simp: analyze_colony_def ensure_structure_def Let_def)

theorem analyze_colony_missing_data_witness:
  "mask' ex_colony_no_mask = None \<and> features ex_colony_no_mask = None \<and>
   scores ex_colony_no_mask = None \<and> phenotype ex_colony_no_mask = None \<and>
   analyze_colony ex_analyzer ex_colony_no_mask True =
     (None,
      ex_colony_no_mask\<lparr>features := Some Map.empty, scores := Some Map.empty,
                         phenotype := Some Map.empty\<rparr>,
      [Warn_missing_data (of_ascii ''c1'')])"
proof -
  have h: "img ex_colony_no_mask = None \<or> mask' ex_colony_no_mask = None"
    and f: "features ex_colony_no_mask = None" and s: "scores ex_colony_no_mask = None"
    and p: "phenotype ex_colony_no_mask = None" and n: "id' ex_colony_no_mask = Some (of_ascii ''c1'')"
    by (simp_all add: ex_colony_no_mask_def ex_colony_def)
  show ?thesis
    using analyze_colony_missing_data [OF h f s p, of ex_analyzer True] f s p n
    by (simp add: ex_colony_no_mask_def)
qed

text \<open>
  C7 fails on the code. A record with \<open>img\<close> and \<open>mask\<close>, \<open>quality_score = 0.1\<close> and no
  \<open>id\<close> reaches the quality check, and the check raises \<open>KeyError('id')\<close>: the warning's
  f-string reads \<open>colony['id']\<close>, where the warning of line 83 reads
  \<open>colony.get('id', 'unknown')\<close>. So \<open>analyze_colony\<close> raises for this record. With an
  \<open>id\<close> the same record only gets the warning.
\<close>

theorem quality_check_raises_without_id:
  "quality_score ex_colony_no_id = Some (1 / 10) \<and> id' ex_colony_no_id = None \<and>
   quality_check ex_colony_no_id = (Some (KeyError (of_ascii ''id'')), []) \<and>
   fst (analyze_colony ex_analyzer ex_colony_no_id False) = Some (KeyError (of_ascii ''id'')) \<and>
   quality_check (ex_colony_no_id\<lparr>id' := Some (of_ascii ''c1'')\<rparr>)
     = (None, [Warn_low_quality (of_ascii ''c1'')])"
  by (simp add: analyze_colony_def ex_analyzer_def ex_colony_no_id_def ex_colony_def
        ensure_structure_def Let_def ex_extract_basic_def score_step_def classify_step_def
        quality_check_def quality_threshold_def cross_boundary_step_def)

lemma analyze_loop_output:
  "fst (snd (analyze_loop self adv (enumerate n xs) (st, out, lg))) = out @ xs"
proof (induction xs arbitrary: n st out lg)
  case Nil show ?case by simp
next
  case (Cons x xs)
  obtain ex c l where r: "analyze_colony self (st x) adv = (ex, c, l)"
    by (cases "analyze_colony self (st x) adv") auto
  show ?case by (cases ex) (simp_all add: r Cons.IH)
qed

lemma analyze_loop_step:
  "analyze_loop self adv ((i, x) # rest) (st, out, lg) =
     analyze_loop self adv rest
       (st(x := fst (snd (analyze_colony self (st x) adv))), out @ [x],
        lg @ snd (snd (analyze_colony self (st x) adv)) @
          (case fst (analyze_colony self (st x) adv) of None \<Rightarrow> [] | Some e \<Rightarrow> [Error_analyzing i e]))"
proof -
  obtain ex c l where r: "analyze_colony self (st x) adv = (ex, c, l)"
    by (cases "analyze_colony self (st x) adv") auto
  show ?thesis by (cases ex) (simp_all add: r)
qed


lemma analyze_loop_store:
  assumes "distinct xs"
  shows "fst (analyze_loop self adv (enumerate n xs) (st, out, lg)) a =
           (if a \<in> set xs then fst (snd (analyze_colony self (st a) adv)) else st a)"
  using assms
proof (induction xs arbitrary: n st out lg)
  case Nil show ?case by simp
next
  case (Cons x xs)
  let ?st = "st(x := fst (snd (analyze_colony self (st x) adv)))"
  let ?lg = "lg @ snd (snd (analyze_colony self (st x) adv)) @
          (case fst (analyze_colony self (st x) adv) of None \<Rightarrow> [] | Some e \<Rightarrow> [Error_analyzing n e])"
  have d: "distinct xs" and nx: "x \<notin> set xs" using Cons.prems by simp_all
  have "fst (analyze_loop self adv (enumerate (Suc n) xs) (?st, out @ [x], ?lg)) a =
           (if a \<in> set xs then fst (snd (analyze_colony self (?st a) adv)) else ?st a)"
    using d by (rule Cons.IH)
  then show ?case using nx by (simp only: enumerate_simps analyze_loop_step) auto
qed


lemma analyze_nonempty:
  "colonies \<noteq> [] \<Longrightarrow>
   analyze self colonies adv st =
     (fst (snd (analyze_loop self adv (enumerate 0 colonies) (st, [], []))),
      fst (analyze_loop self adv (enumerate 0 colonies) (st, [], [])),
      snd (snd (analyze_loop self adv (enumerate 0 colonies) (st, [], []))) @
        [Info_done (length (fst (snd (analyze_loop self adv (enumerate 0 colonies) (st, [], [])))))])"
  by (simp add: analyze_def split: prod.splits)

lemma analyze_output: "fst (analyze self colonies adv st) = colonies"
proof (cases "colonies = []")
  case True then show ?thesis by (simp add: analyze_def)
next
  case False then show ?thesis by (simp add: analyze_nonempty analyze_loop_output)
qed

lemma analyze_store:
  assumes "distinct colonies"
  shows "fst (snd (analyze self colonies adv st)) a =
           (if a \<in> set colonies then fst (snd (analyze_colony self (st a) adv)) else st a)"
proof (cases "colonies = []")
  case True then show ?thesis by (simp add: analyze_def)
next
  case False then show ?thesis using assms by (simp add: analyze_nonempty analyze_loop_store)
qed


text \<open>
  C2. For every batch, the empty one included, \<open>analyze\<close> returns a list of the same
  length that holds, at every position, the record object of that input position; when
  no object occurs twice in the batch, each is left in the state \<open>analyze_colony\<close> gives
  it. An empty batch returns an empty list, with one warning logged and the store
  untouched. No exception leaves \<open>analyze\<close>: its result is total.
\<close>

theorem analyze_same_length_and_order:
  "fst (analyze self colonies adv st) = colonies \<and>
   length (fst (analyze self colonies adv st)) = length colonies \<and>
   (\<forall>i < length colonies. fst (analyze self colonies adv st) ! i = colonies ! i) \<and>
   analyze self [] adv st = ([], st, [Warn_no_colonies]) \<and>
   (distinct colonies \<longrightarrow>
      map (fst (snd (analyze self colonies adv st))) colonies
        = map (\<lambda>a. fst (snd (analyze_colony self (st a) adv))) colonies)"
  by (simp add: analyze_output analyze_store) (simp add: analyze_def)







theorem analyze_same_length_and_order_witness:
  "distinct [0, 1 :: ref] \<and>
   fst (analyze ex_analyzer_picky [0, 1] False ex_store) = [0, 1] \<and>
   length (fst (analyze ex_analyzer_picky [0, 1] False ex_store)) = 2 \<and>
   map (fst (snd (analyze ex_analyzer_picky [0, 1] False ex_store))) [0, 1]
     = [fst (snd (analyze_colony ex_analyzer_picky ex_colony_bad False)),
        fst (snd (analyze_colony ex_analyzer_picky ex_colony False))] \<and>
   analyze ex_analyzer_picky [] False ex_store = ([], ex_store, [Warn_no_colonies])"
  using analyze_same_length_and_order [of ex_analyzer_picky "[0, 1]" False ex_store]
        analyze_same_length_and_order [of ex_analyzer_picky "[]" False ex_store]
  by (simp add: ex_store_def)

end
